theory Spec2Isabelle
  imports Complex_Main
begin

section \<open>TimeGuard: the mock backend and the attendance toggle\<close>

text \<open>
  A shallow embedding of the repository's two source files: the mock API over
  \<^verbatim>\<open>localStorage\<close> (\<^verbatim>\<open>initializeData\<close>, \<^verbatim>\<open>stripPassword\<close>, \<^verbatim>\<open>login\<close>,
  \<^verbatim>\<open>getUsers\<close>, \<^verbatim>\<open>getLogs\<close>, \<^verbatim>\<open>addUser\<close>, \<^verbatim>\<open>updateUser\<close>, \<^verbatim>\<open>deleteUser\<close>,
  \<^verbatim>\<open>addLog\<close>), the location service (\<^verbatim>\<open>getGeolocation\<close>, \<^verbatim>\<open>getIpAddress\<close>) and
  the handlers of the \<^verbatim>\<open>App\<close> component (\<^verbatim>\<open>loadData\<close>, \<^verbatim>\<open>handleLogin\<close>,
  \<^verbatim>\<open>handleLogout\<close>, \<^verbatim>\<open>handleCheckIn\<close>).

  Conventions of the embedding.
  \<^item> A thrown \<^verbatim>\<open>Error\<close> is a value \<open>Inl (Error msg)\<close>; a rejected promise is the same.
  \<^item> Every API function takes the \<^verbatim>\<open>localStorage\<close> state and returns it with its result.
    The body of each function after \<^verbatim>\<open>await simulateDelay()\<close> has no further suspension
    point, so it runs atomically and is modelled as one step; the delay itself has no
    effect on the state.
  \<^item> A \<^verbatim>\<open>localStorage\<close> item holds the text \<^verbatim>\<open>JSON.stringify\<close> produced for an array. The
    model keeps the array the text denotes: \<open>None\<close> is a missing key (\<^verbatim>\<open>getItem\<close> returns
    \<^verbatim>\<open>null\<close>), \<open>Some xs\<close> the stored array. The text of an array is never empty, so a
    present item is truthy. The same holds for the session item.
  \<^item> A \<^verbatim>\<open>Date\<close> is its number of milliseconds since the epoch (an \<open>int\<close>); writing it as
    JSON and reading it back with \<^verbatim>\<open>new Date\<close> gives the same number. A property that
    is \<^verbatim>\<open>undefined\<close> is dropped by \<^verbatim>\<open>JSON.stringify\<close>, a \<^verbatim>\<open>null\<close> is kept: both optional
    values are \<open>None\<close>.
  \<^item> Every reading of the clock and every answer of a collaborator (the IP lookup, the
    browser's geolocation) is an input of the function that asks for it.
\<close>

subsection \<open>Data model\<close>

text \<open>
  Modelled from the spec: the declarations of \<^verbatim>\<open>UserRole\<close>, \<^verbatim>\<open>User\<close>, \<^verbatim>\<open>GeolocationData\<close>
  and \<^verbatim>\<open>LogEntry\<close> live in \<^verbatim>\<open>types.ts\<close>, which is not among the sources. The fields are
  the ones the spec's data model lists and the code reads and writes. \<^verbatim>\<open>status\<close> is kept
  as the string the code compares, \<^verbatim>\<open>password\<close> is optional (\<^verbatim>\<open>stripPassword\<close> returns
  a \<^verbatim>\<open>User\<close> without it).
\<close>

datatype UserRole = Admin | Employee

record User =
  id_user :: string
  name :: string
  username :: string
  password :: "string option"
  role :: UserRole
  status :: string
  lastCheckIn :: "int option"

record GeolocationData =
  latitude :: real
  longitude :: real

text \<open>\<^verbatim>\<open>Omit<LogEntry, 'id'>\<close> is the record \<open>NewLog\<close>; \<open>LogEntry\<close> extends it with the id.\<close>

record NewLog =
  userId :: string
  userName :: string
  timestamp :: int
  type_log :: string
  ip :: string
  location :: "GeolocationData option"
  locationError :: "string option"

record LogEntry = NewLog +
  id_log :: string

datatype error = Error string | TypeError string

text \<open>The two \<^verbatim>\<open>localStorage\<close> items, under \<^verbatim>\<open>USERS_KEY\<close> and \<^verbatim>\<open>LOGS_KEY\<close>.\<close>

record localStorage =
  users_item :: "User list option"
  logs_item :: "LogEntry list option"

text \<open>\<^verbatim>\<open>JSON.parse(localStorage.getItem(KEY) || '[]')\<close>\<close>

definition parse_users :: "localStorage \<Rightarrow> User list" where
  "parse_users st = (case users_item st of None \<Rightarrow> [] | Some us \<Rightarrow> us)"

definition parse_logs :: "localStorage \<Rightarrow> LogEntry list" where
  "parse_logs st = (case logs_item st of None \<Rightarrow> [] | Some ls \<Rightarrow> ls)"

subsection \<open>Bootstrap\<close>

definition initialUsers :: "User list" where
  "initialUsers =
    [\<lparr>id_user = ''admin-1'', name = ''Admin User'', username = ''admin'',
      password = Some ''admin'', role = Admin, status = ''Checked Out'', lastCheckIn = None\<rparr>,
     \<lparr>id_user = ''emp-1'', name = ''Alice'', username = ''alice'',
      password = Some ''alice123'', role = Employee, status = ''Checked Out'', lastCheckIn = None\<rparr>,
     \<lparr>id_user = ''emp-2'', name = ''Bob'', username = ''bob'',
      password = Some ''bob123'', role = Employee, status = ''Checked Out'', lastCheckIn = None\<rparr>,
     \<lparr>id_user = ''emp-3'', name = ''Charlie'', username = ''charlie'',
      password = Some ''charlie123'', role = Employee, status = ''Checked Out'', lastCheckIn = None\<rparr>]"

definition initializeData :: "localStorage \<Rightarrow> localStorage" where
  "initializeData st =
    (let st1 = (if users_item st = None then st\<lparr>users_item := Some initialUsers\<rparr> else st)
     in if logs_item st1 = None then st1\<lparr>logs_item := Some []\<rparr> else st1)"

subsection \<open>The API functions\<close>

definition stripPassword :: "User \<Rightarrow> User" where
  "stripPassword user = user\<lparr>password := None\<rparr>"

definition login :: "localStorage \<Rightarrow> string \<Rightarrow> string \<Rightarrow> (error + User) \<times> localStorage" where
  "login st uname pw =
    (let users = parse_users st in
     case find (\<lambda>u. username u = uname) users of
       Some user \<Rightarrow>
         if password user = Some pw then (Inr (stripPassword user), st)
         else (Inl (Error ''Invalid username or password.''), st)
     | None \<Rightarrow> (Inl (Error ''Invalid username or password.''), st))"

definition getUsers :: "localStorage \<Rightarrow> (error + User list) \<times> localStorage" where
  "getUsers st = (Inr (map stripPassword (parse_users st)), st)"

definition getLogs :: "localStorage \<Rightarrow> (error + LogEntry list) \<times> localStorage" where
  "getLogs st = (Inr (map (\<lambda>log. log\<lparr>timestamp := timestamp log\<rparr>) (parse_logs st)), st)"

definition addUser :: "localStorage \<Rightarrow> User \<Rightarrow> (error + User) \<times> localStorage" where
  "addUser st newUser =
    (let users = parse_users st in
     if list_ex (\<lambda>u. username u = username newUser) users
     then (Inl (Error ''Username already exists.''), st)
     else (Inr (stripPassword newUser), st\<lparr>users_item := Some (users @ [newUser])\<rparr>))"

text \<open>
  \<^verbatim>\<open>updatedUser.password ? updatedUser.password : u.password\<close>: a missing and an empty
  password are both falsy. \<^verbatim>\<open>{ ...u, ...updatedUser, password }\<close>: every other field of
  the \<^verbatim>\<open>User\<close> type is present in \<^verbatim>\<open>updatedUser\<close>, so it overrides the stored one.
\<close>

definition truthy :: "string option \<Rightarrow> bool" where
  "truthy p = (case p of None \<Rightarrow> False | Some s \<Rightarrow> s \<noteq> [])"

definition merge_user :: "User \<Rightarrow> User \<Rightarrow> User" where
  "merge_user u updatedUser =
    updatedUser\<lparr>password := (if truthy (password updatedUser) then password updatedUser
                              else password u)\<rparr>"

definition updateUser :: "localStorage \<Rightarrow> User \<Rightarrow> (error + User) \<times> localStorage" where
  "updateUser st updatedUser =
    (let users = parse_users st;
         userFound = list_ex (\<lambda>u. id_user u = id_user updatedUser) users;
         users' = map (\<lambda>u. if id_user u = id_user updatedUser then merge_user u updatedUser
                            else u) users
     in if \<not> userFound then (Inl (Error ''User not found.''), st)
        else let st' = st\<lparr>users_item := Some users'\<rparr> in
          (case find (\<lambda>u. id_user u = id_user updatedUser) users' of
             Some u \<Rightarrow> (Inr (stripPassword u), st')
           | None \<Rightarrow> (Inl (TypeError ''Cannot destructure undefined''), st')))"

definition deleteUser :: "localStorage \<Rightarrow> string \<Rightarrow> (error + unit) \<times> localStorage" where
  "deleteUser st userId' =
    (let users = filter (\<lambda>u. id_user u \<noteq> userId') (parse_users st)
     in (Inr (), st\<lparr>users_item := Some users\<rparr>))"

text \<open>
  The template literal \<^verbatim>\<open>`log-${Date.now()}`\<close> writes the clock's integer in decimal,
  with a minus sign when it is negative.
\<close>

fun decimal :: "nat \<Rightarrow> string" where
  "decimal n = (if n < 10 then [char_of (48 + n)]
                else decimal (n div 10) @ [char_of (48 + n mod 10)])"

declare decimal.simps [simp del]

definition number_text :: "int \<Rightarrow> string" where
  "number_text i = (if i < 0 then CHR ''-'' # decimal (nat (- i)) else decimal (nat i))"

definition addLog :: "int \<Rightarrow> localStorage \<Rightarrow> NewLog \<Rightarrow> (error + LogEntry) \<times> localStorage" where
  "addLog now st newLog =
    (let logs = parse_logs st;
         logWithId = NewLog.extend newLog (LogEntry.fields (''log-'' @ number_text now))
     in (Inr (logWithId\<lparr>timestamp := timestamp logWithId\<rparr>),
         st\<lparr>logs_item := Some (logWithId # logs)\<rparr>))"

subsection \<open>The location service\<close>

text \<open>
  What the browser answers to \<^verbatim>\<open>navigator.geolocation.getCurrentPosition\<close>: no
  geolocation object at all, a position, or an error with its numeric code
  (\<^verbatim>\<open>PERMISSION_DENIED\<close> is 1, \<^verbatim>\<open>POSITION_UNAVAILABLE\<close> is 2, \<^verbatim>\<open>TIMEOUT\<close> is 3).
\<close>

datatype geo_answer = Geo_unsupported | Geo_position real real | Geo_error nat

definition getGeolocation :: "geo_answer \<Rightarrow> error + GeolocationData" where
  "getGeolocation a =
    (case a of
       Geo_unsupported \<Rightarrow> Inl (Error ''Geolocation is not supported by your browser.'')
     | Geo_position lat lon \<Rightarrow> Inr \<lparr>latitude = lat, longitude = lon\<rparr>
     | Geo_error code \<Rightarrow>
         Inl (Error (if code = 1 then ''User denied the request for Geolocation.''
                     else if code = 2 then ''Location information is unavailable.''
                     else if code = 3 then ''The request to get user location timed out.''
                     else ''An unknown error occurred.'')))"

text \<open>
  What \<^verbatim>\<open>fetch\<close> answers to the ipify request: the promise rejects, the response is
  not \<^verbatim>\<open>ok\<close>, its body is not the JSON of an object, or the body is an object whose
  \<^verbatim>\<open>ip\<close> property is the given string.
\<close>

datatype fetch_answer = Fetch_rejected | Response_not_ok | Body_unreadable | Body_ip string

definition getIpAddress :: "fetch_answer \<Rightarrow> string" where
  "getIpAddress a =
    (case a of
       Body_ip addr \<Rightarrow> addr
     | Response_not_ok \<Rightarrow> ''Unavailable''
     | Fetch_rejected \<Rightarrow> ''Unavailable''
     | Body_unreadable \<Rightarrow> ''Unavailable'')"

subsection \<open>The App component\<close>

text \<open>
  The state of the component (its \<^verbatim>\<open>useState\<close> cells), and the world it runs in: the
  \<^verbatim>\<open>localStorage\<close>, the \<^verbatim>\<open>timeguard_session\<close> item of the \<^verbatim>\<open>sessionStorage\<close> and the
  component's state.
\<close>

record App =
  loggedInUser :: "User option"
  users :: "User list"
  logs :: "LogEntry list"
  isLoading :: bool
  isProcessing :: bool
  loginError :: "string option"

record world =
  storage :: localStorage
  session :: "User option"
  app :: App

text \<open>The component as \<^verbatim>\<open>useState\<close> initialises it, before \<^verbatim>\<open>loadData\<close> runs.\<close>

definition initialApp :: App where
  "initialApp = \<lparr>loggedInUser = None, users = [], logs = [], isLoading = True,
                  isProcessing = False, loginError = None\<rparr>"

definition loadData :: "world \<Rightarrow> world" where
  "loadData w =
    (let (ru, st1) = getUsers (storage w);
         (rl, st2) = getLogs st1;
         w2 = w\<lparr>storage := st2\<rparr>
     in case (ru, rl) of
          (Inr loadedUsers, Inr loadedLogs) \<Rightarrow>
            (let a = (app w2)\<lparr>users := loadedUsers, logs := loadedLogs\<rparr> in
             case session w2 of
               None \<Rightarrow> w2\<lparr>app := a\<lparr>isLoading := False\<rparr>\<rparr>
             | Some parsedUser \<Rightarrow>
                 if list_ex (\<lambda>u. id_user u = id_user parsedUser) loadedUsers
                 then w2\<lparr>app := a\<lparr>loggedInUser := Some parsedUser, isLoading := False\<rparr>\<rparr>
                 else w2\<lparr>session := None, app := a\<lparr>isLoading := False\<rparr>\<rparr>)
        | _ \<Rightarrow>
            w2\<lparr>app := (app w2)\<lparr>loginError := Some ''Could not load application data. Please refresh.'',
                                isLoading := False\<rparr>\<rparr>)"

definition handleLogin :: "world \<Rightarrow> string \<Rightarrow> string \<Rightarrow> world" where
  "handleLogin w uname pw =
    (let a = (app w)\<lparr>loginError := None\<rparr>;
         (r, st) = login (storage w) uname pw
     in case r of
          Inr user \<Rightarrow> w\<lparr>storage := st, session := Some user, app := a\<lparr>loggedInUser := Some user\<rparr>\<rparr>
        | Inl (Error msg) \<Rightarrow> w\<lparr>storage := st, app := a\<lparr>loginError := Some msg\<rparr>\<rparr>
        | Inl (TypeError msg) \<Rightarrow> w\<lparr>storage := st, app := a\<lparr>loginError := Some msg\<rparr>\<rparr>)"

definition handleLogout :: "world \<Rightarrow> world" where
  "handleLogout w = w\<lparr>session := None, app := (app w)\<lparr>loggedInUser := None\<rparr>\<rparr>"

text \<open>
  The inputs of one run of \<^verbatim>\<open>handleCheckIn\<close>: the two collaborators' answers and the three
  readings of the clock it takes, in the order it takes them (\<^verbatim>\<open>new Date()\<close> for the
  log's timestamp, \<^verbatim>\<open>Date.now()\<close> inside \<^verbatim>\<open>addLog\<close>, \<^verbatim>\<open>new Date()\<close> for \<^verbatim>\<open>lastCheckIn\<close>).
\<close>

record toggle_env =
  ip_answer :: fetch_answer
  geo :: geo_answer
  now_log :: int
  now_id :: int
  now_checkIn :: int

record outcome =
  success :: bool
  message :: string

definition newStatus_of :: "User \<Rightarrow> string" where
  "newStatus_of u = (if status u = ''Checked In'' then ''Checked Out'' else ''Checked In'')"

definition logType_of :: "string \<Rightarrow> string" where
  "logType_of newStatus = (if newStatus = ''Checked In'' then ''in'' else ''out'')"

definition newLog_of :: "toggle_env \<Rightarrow> User \<Rightarrow> NewLog" where
  "newLog_of env u =
    (let ip' = getIpAddress (ip_answer env);
         (location', locationError') =
           (case getGeolocation (geo env) of
              Inr g \<Rightarrow> (Some g, None)
            | Inl (Error msg) \<Rightarrow> (None, Some msg)
            | Inl (TypeError msg) \<Rightarrow> (None, Some msg))
     in \<lparr>userId = id_user u, userName = name u, timestamp = now_log env,
         type_log = logType_of (newStatus_of u), ip = ip',
         location = location', locationError = locationError'\<rparr>)"

definition updatedUser_of :: "toggle_env \<Rightarrow> User \<Rightarrow> User" where
  "updatedUser_of env u =
    u\<lparr>status := newStatus_of u,
      lastCheckIn := (if newStatus_of u = ''Checked In'' then Some (now_checkIn env)
                      else lastCheckIn u)\<rparr>"

definition handleCheckIn :: "toggle_env \<Rightarrow> world \<Rightarrow> outcome \<times> world" where
  "handleCheckIn env w =
    (case loggedInUser (app w) of
       None \<Rightarrow>
         (\<lparr>success = False,
           message = ''Another operation is in progress or user not logged in.''\<rparr>, w)
     | Some u \<Rightarrow>
         if isProcessing (app w)
         then (\<lparr>success = False,
                message = ''Another operation is in progress or user not logged in.''\<rparr>, w)
         else
          (let failed = \<lparr>success = False,
                         message = ''Check-in process failed. Please try again.''\<rparr>;
               (r1, st1) = addLog (now_id env) (storage w) (newLog_of env u)
           in case r1 of
                Inl e \<Rightarrow> (failed, w\<lparr>storage := st1, app := (app w)\<lparr>isProcessing := False\<rparr>\<rparr>)
              | Inr createdLog \<Rightarrow>
                 (let (r2, st2) = updateUser st1 (updatedUser_of env u)
                  in case r2 of
                       Inl e \<Rightarrow>
                         (failed, w\<lparr>storage := st2, app := (app w)\<lparr>isProcessing := False\<rparr>\<rparr>)
                     | Inr savedUser \<Rightarrow>
                         (\<lparr>success = True,
                           message = ''Successfully Checked '' @ logType_of (newStatus_of u) @ ''!''\<rparr>,
                          w\<lparr>storage := st2, session := Some savedUser,
                            app := (app w)
                              \<lparr>users := map (\<lambda>x. if id_user x = id_user savedUser then savedUser
                                                  else x) (users (app w)),
                               logs := createdLog # logs (app w),
                               loggedInUser := Some savedUser,
                               isProcessing := False\<rparr>\<rparr>))))"

subsection \<open>Sequences of calls\<close>

text \<open>
  \<open>addLogs\<close> runs \<^verbatim>\<open>addLog\<close> once for each element of a list, in order, each call with
  its own reading of the clock.
\<close>

fun addLogs :: "localStorage \<Rightarrow> (int \<times> NewLog) list \<Rightarrow> localStorage" where
  "addLogs st [] = st"
| "addLogs st ((now, newLog) # calls) = addLogs (snd (addLog now st newLog)) calls"

text \<open>The entry \<^verbatim>\<open>addLog\<close> stores for a call.\<close>

definition stored_entry :: "int \<times> NewLog \<Rightarrow> LogEntry" where
  "stored_entry c = NewLog.extend (snd c) (LogEntry.fields (''log-'' @ number_text (fst c)))"

text \<open>
  The calls of the Directory and Authentication operations that return users, and the
  users a call returns when it succeeds (none when it fails).
\<close>

datatype directory_call =
  Login string string | GetUsers | AddUser User | UpdateUser User

definition run_call :: "localStorage \<Rightarrow> directory_call \<Rightarrow> (error + User list) \<times> localStorage" where
  "run_call st c =
    (case c of
       Login uname pw \<Rightarrow> (case login st uname pw of (r, st') \<Rightarrow> (map_sum (\<lambda>e. e) (\<lambda>u. [u]) r, st'))
     | GetUsers \<Rightarrow> getUsers st
     | AddUser u \<Rightarrow> (case addUser st u of (r, st') \<Rightarrow> (map_sum (\<lambda>e. e) (\<lambda>u. [u]) r, st'))
     | UpdateUser u \<Rightarrow> (case updateUser st u of (r, st') \<Rightarrow> (map_sum (\<lambda>e. e) (\<lambda>u. [u]) r, st')))"

subsection \<open>Reading a decimal numeral back\<close>

text \<open>The value of a string of decimal digits; it serves to show that \<open>decimal\<close> is injective.\<close>

definition undecimal :: "string \<Rightarrow> nat" where
  "undecimal s = foldl (\<lambda>a c. 10 * a + (of_char c - 48)) 0 s"

subsection \<open>Concrete states\<close>

text \<open>
  The store after the first run of \<^verbatim>\<open>initializeData\<close>, and the world after the application
  has started on it and Alice has logged in with her seeded password.
\<close>

definition seeded :: localStorage where
  "seeded = initializeData \<lparr>users_item = None, logs_item = None\<rparr>"

definition alice_world :: world where
  "alice_world =
    handleLogin (loadData \<lparr>storage = seeded, session = None, app = initialApp\<rparr>)
      ''alice'' ''alice123''"

definition alice_sanitized :: User where
  "alice_sanitized = \<lparr>id_user = ''emp-1'', name = ''Alice'', username = ''alice'',
     password = None, role = Employee, status = ''Checked Out'', lastCheckIn = None\<rparr>"

text \<open>A world whose logged-in user carries a status outside the two named ones.\<close>

definition bob_on_break :: User where
  "bob_on_break = \<lparr>id_user = ''emp-2'', name = ''Bob'', username = ''bob'',
     password = None, role = Employee, status = ''On Break'', lastCheckIn = None\<rparr>"

definition break_world :: world where
  "break_world =
    \<lparr>storage = seeded, session = Some bob_on_break,
     app = initialApp\<lparr>loggedInUser := Some bob_on_break, isLoading := False\<rparr>\<rparr>"

text \<open>
  Two runs of the toggle: in the first the IP lookup is rejected and the user denies the
  position, in the second both collaborators answer.
\<close>

definition env_degraded :: toggle_env where
  "env_degraded = \<lparr>ip_answer = Fetch_rejected, geo = Geo_error 1,
     now_log = 1000, now_id = 1500, now_checkIn = 1501\<rparr>"

definition env_full :: toggle_env where
  "env_full = \<lparr>ip_answer = Body_ip ''203.0.113.7'', geo = Geo_position 48 11,
     now_log = 9000, now_id = 9500, now_checkIn = 9501\<rparr>"

text \<open>The world after Alice's first toggle, and a start of the application with her session
  stored, once with her record in the directory and once after it was deleted.\<close>

definition alice_checked_in :: world where
  "alice_checked_in = snd (handleCheckIn env_degraded alice_world)"

definition restart_world :: world where
  "restart_world = \<lparr>storage = seeded, session = Some alice_sanitized, app = initialApp\<rparr>"

definition restart_deleted_world :: world where
  "restart_deleted_world =
    \<lparr>storage = snd (deleteUser seeded ''emp-1''), session = Some alice_sanitized,
     app = initialApp\<rparr>"

definition log_a :: NewLog where
  "log_a = \<lparr>userId = ''emp-1'', userName = ''Alice'', timestamp = 1000, type_log = ''in'',
     ip = ''Unavailable'', location = None, locationError = None\<rparr>"

definition log_b :: NewLog where
  "log_b = \<lparr>userId = ''emp-2'', userName = ''Bob'', timestamp = 1000, type_log = ''in'',
     ip = ''Unavailable'', location = None, locationError = None\<rparr>"

section \<open>Properties\<close>

subsection \<open>The concrete states, evaluated\<close>

lemma seeded_eq: "seeded = \<lparr>users_item = Some initialUsers, logs_item = Some []\<rparr>"
  by (simp add: seeded_def initializeData_def)

lemma parse_seeded: "parse_users seeded = initialUsers" "parse_logs seeded = []"
  by (simp_all add: seeded_eq parse_users_def parse_logs_def)

lemma alice_world_eq:
  "alice_world = \<lparr>storage = seeded, session = Some alice_sanitized,
     app = \<lparr>loggedInUser = Some alice_sanitized, users = map stripPassword initialUsers,
            logs = [], isLoading = False, isProcessing = False, loginError = None\<rparr>\<rparr>"
  by (simp add: alice_world_def handleLogin_def loadData_def getUsers_def getLogs_def login_def
      initialApp_def alice_sanitized_def stripPassword_def initialUsers_def Let_def parse_seeded)

subsection \<open>Bootstrap\<close>

text \<open>
  C9. On first use (the users key missing) \<^verbatim>\<open>initializeData\<close> stores the seed directory,
  one Admin and three Employees, all \<^verbatim>\<open>Checked Out\<close> with \<^verbatim>\<open>lastCheckIn\<close> null, and a
  missing logs key gets the empty log. A key that is present is left as it is, also when
  its collection is empty, so a second run changes nothing.
\<close>

theorem initializeData_bootstrap:
  "(users_item st = None \<longrightarrow> users_item (initializeData st) = Some initialUsers)
   \<and> (logs_item st = None \<longrightarrow> logs_item (initializeData st) = Some [])
   \<and> (users_item st \<noteq> None \<longrightarrow> users_item (initializeData st) = users_item st)
   \<and> (logs_item st \<noteq> None \<longrightarrow> logs_item (initializeData st) = logs_item st)
   \<and> (users_item st \<noteq> None \<and> logs_item st \<noteq> None \<longrightarrow> initializeData st = st)
   \<and> initializeData (initializeData st) = initializeData st
   \<and> map role initialUsers = [Admin, Employee, Employee, Employee]
   \<and> map status initialUsers = replicate 4 ''Checked Out''
   \<and> map lastCheckIn initialUsers = replicate 4 None"
  by (simp add: initializeData_def initialUsers_def Let_def numeral_eq_Suc)

theorem initializeData_bootstrap_witness:
  "users_item \<lparr>users_item = None, logs_item = None\<rparr> = None
   \<and> logs_item \<lparr>users_item = None, logs_item = None\<rparr> = None
   \<and> initializeData \<lparr>users_item = None, logs_item = None\<rparr>
       = \<lparr>users_item = Some initialUsers, logs_item = Some []\<rparr>
   \<and> users_item seeded \<noteq> None \<and> logs_item seeded \<noteq> None
   \<and> initializeData seeded = seeded
   \<and> initializeData \<lparr>users_item = Some [], logs_item = Some []\<rparr>
       = \<lparr>users_item = Some [], logs_item = Some []\<rparr>"
proof -
  let ?empty = "\<lparr>users_item = None, logs_item = None\<rparr>"
  have first: "users_item ?empty = None" "logs_item ?empty = None"
    by simp_all
  have "users_item (initializeData ?empty) = Some initialUsers"
    and "logs_item (initializeData ?empty) = Some []"
    using initializeData_bootstrap [of ?empty] first by simp_all
  then have fresh: "initializeData ?empty = \<lparr>users_item = Some initialUsers, logs_item = Some []\<rparr>"
    by (cases "initializeData ?empty") simp
  have present: "users_item seeded \<noteq> None" "logs_item seeded \<noteq> None"
    by (simp_all add: seeded_eq)
  with initializeData_bootstrap [of seeded] have "initializeData seeded = seeded"
    by simp
  moreover from initializeData_bootstrap [of "\<lparr>users_item = Some [], logs_item = Some []\<rparr>"]
  have "initializeData \<lparr>users_item = Some [], logs_item = Some []\<rparr>
      = \<lparr>users_item = Some [], logs_item = Some []\<rparr>"
    by simp
  ultimately show ?thesis
    using first fresh present by simp
qed

subsection \<open>Directory and authentication\<close>

text \<open>
  C3. \<^verbatim>\<open>addUser\<close> fails with \<^verbatim>\<open>Username already exists.\<close> exactly when a stored user has
  the candidate's username (equality of strings, so case matters), and then the store is
  unchanged; otherwise the candidate is appended to the stored users and returned without
  its password.
\<close>

theorem addUser_duplicate_username:
  "(fst (addUser st c) = Inl (Error ''Username already exists.'')
      \<longleftrightarrow> (\<exists>u \<in> set (parse_users st). username u = username c))
   \<and> ((\<exists>u \<in> set (parse_users st). username u = username c) \<longrightarrow> snd (addUser st c) = st)
   \<and> (\<not> (\<exists>u \<in> set (parse_users st). username u = username c) \<longrightarrow>
        addUser st c = (Inr (stripPassword c), st\<lparr>users_item := Some (parse_users st @ [c])\<rparr>))"
  by (simp add: addUser_def Let_def list_ex_iff)

theorem addUser_duplicate_username_witness:
  "(\<exists>u \<in> set (parse_users seeded). username u = username (alice_sanitized\<lparr>id_user := ''emp-9''\<rparr>))
   \<and> fst (addUser seeded (alice_sanitized\<lparr>id_user := ''emp-9''\<rparr>))
       = Inl (Error ''Username already exists.'')
   \<and> snd (addUser seeded (alice_sanitized\<lparr>id_user := ''emp-9''\<rparr>)) = seeded
   \<and> \<not> (\<exists>u \<in> set (parse_users seeded).
           username u = username (alice_sanitized\<lparr>username := ''Alice'', password := Some ''pw''\<rparr>))
   \<and> addUser seeded (alice_sanitized\<lparr>username := ''Alice'', password := Some ''pw''\<rparr>)
       = (Inr (alice_sanitized\<lparr>username := ''Alice''\<rparr>),
          seeded\<lparr>users_item := Some (initialUsers
                    @ [alice_sanitized\<lparr>username := ''Alice'', password := Some ''pw''\<rparr>])\<rparr>)"
proof -
  let ?dup = "alice_sanitized\<lparr>id_user := ''emp-9''\<rparr>"
  let ?new = "alice_sanitized\<lparr>username := ''Alice'', password := Some ''pw''\<rparr>"
  have dup: "\<exists>u \<in> set (parse_users seeded). username u = username ?dup"
    by (simp add: parse_seeded initialUsers_def alice_sanitized_def)
  have new: "\<not> (\<exists>u \<in> set (parse_users seeded). username u = username ?new)"
    by (simp add: parse_seeded initialUsers_def alice_sanitized_def)
  from addUser_duplicate_username [of seeded ?dup] dup
  have d: "fst (addUser seeded ?dup) = Inl (Error ''Username already exists.'')"
    "snd (addUser seeded ?dup) = seeded"
    by simp_all
  from addUser_duplicate_username [of seeded ?new] new
  have "addUser seeded ?new =
      (Inr (stripPassword ?new), seeded\<lparr>users_item := Some (parse_users seeded @ [?new])\<rparr>)"
    by simp
  then have n: "addUser seeded ?new =
      (Inr (alice_sanitized\<lparr>username := ''Alice''\<rparr>),
       seeded\<lparr>users_item := Some (initialUsers @ [?new])\<rparr>)"
    by (simp add: parse_seeded stripPassword_def alice_sanitized_def)
  from dup d new n show ?thesis
    by simp
qed

lemma addUser_keeps_usernames_distinct:
  "distinct (map username (parse_users st)) \<Longrightarrow>
   distinct (map username (parse_users (snd (addUser st c))))"
  by (auto simp: addUser_def Let_def list_ex_iff parse_users_def)

text \<open>
  C6. \<^verbatim>\<open>login\<close> fails with \<^verbatim>\<open>Invalid username or password.\<close> exactly when no stored user
  has the given username or the first stored user with it has another password (or none);
  otherwise it returns that first user without the password. In both cases the store is
  the one it started from.
\<close>

theorem login_invalid_credentials:
  "(fst (login st uname pw) = Inl (Error ''Invalid username or password.'')
      \<longleftrightarrow> ((\<forall>u \<in> set (parse_users st). username u \<noteq> uname)
           \<or> (\<exists>u. find (\<lambda>u. username u = uname) (parse_users st) = Some u
                  \<and> password u \<noteq> Some pw)))
   \<and> (\<forall>u. find (\<lambda>u. username u = uname) (parse_users st) = Some u \<and> password u = Some pw
          \<longrightarrow> fst (login st uname pw) = Inr (stripPassword u))
   \<and> snd (login st uname pw) = st"
proof -
  have found: "\<exists>x \<in> set xs. P x" if "find P xs = Some u" for P xs and u :: User
    using that by (auto simp: find_Some_iff)
  show ?thesis
    by (auto simp: login_def Let_def find_None_iff split: option.splits dest: found)
qed

theorem login_invalid_credentials_witness:
  "find (\<lambda>u. username u = ''alice'') (parse_users seeded)
     = Some (alice_sanitized\<lparr>password := Some ''alice123''\<rparr>)
   \<and> fst (login seeded ''alice'' ''wrong'') = Inl (Error ''Invalid username or password.'')
   \<and> snd (login seeded ''alice'' ''wrong'') = seeded
   \<and> fst (login seeded ''alice'' ''alice123'') = Inr alice_sanitized
   \<and> snd (login seeded ''alice'' ''alice123'') = seeded
   \<and> fst (login seeded ''mallory'' ''alice123'') = Inl (Error ''Invalid username or password.'')"
proof -
  let ?alice = "alice_sanitized\<lparr>password := Some ''alice123''\<rparr>"
  have f: "find (\<lambda>u. username u = ''alice'') (parse_users seeded) = Some ?alice"
    by (simp add: parse_seeded initialUsers_def alice_sanitized_def)
  have none: "\<forall>u \<in> set (parse_users seeded). username u \<noteq> ''mallory''"
    by (simp add: parse_seeded initialUsers_def)
  from login_invalid_credentials [of seeded "''alice''" "''wrong''"] f
  have wrong: "fst (login seeded ''alice'' ''wrong'') = Inl (Error ''Invalid username or password.'')"
    "snd (login seeded ''alice'' ''wrong'') = seeded"
    by simp_all
  from login_invalid_credentials [of seeded "''alice''" "''alice123''"] f
  have right: "fst (login seeded ''alice'' ''alice123'') = Inr alice_sanitized"
    "snd (login seeded ''alice'' ''alice123'') = seeded"
    by (simp_all add: stripPassword_def alice_sanitized_def)
  from login_invalid_credentials [of seeded "''mallory''" "''alice123''"] none
  have "fst (login seeded ''mallory'' ''alice123'') = Inl (Error ''Invalid username or password.'')"
    by blast
  with f wrong right show ?thesis
    by simp
qed

text \<open>
  What \<^verbatim>\<open>updateUser\<close> does when a stored user has the patch's id, and when none has.
\<close>

lemma find_map_merge:
  "find (\<lambda>y. id_user y = id_user p) xs = Some x \<Longrightarrow>
   find (\<lambda>y. id_user y = id_user p)
     (map (\<lambda>y. if id_user y = id_user p then merge_user y p else y) xs) = Some (merge_user x p)"
proof (induction xs)
  case Nil
  then show ?case by simp
next
  case (Cons a xs)
  have id_merge: "id_user (merge_user y p) = id_user p" for y
    by (simp add: merge_user_def)
  show ?case
  proof (cases "id_user a = id_user p")
    case True
    with Cons.prems show ?thesis by (simp add: id_merge)
  next
    case False
    with Cons show ?thesis by simp
  qed
qed

lemma updateUser_found:
  assumes "find (\<lambda>y. id_user y = id_user p) (parse_users st) = Some x"
  shows "updateUser st p =
    (Inr (stripPassword (merge_user x p)),
     st\<lparr>users_item := Some (map (\<lambda>y. if id_user y = id_user p then merge_user y p else y)
                                 (parse_users st))\<rparr>)"
proof -
  from assms have "list_ex (\<lambda>y. id_user y = id_user p) (parse_users st)"
    by (auto simp: list_ex_iff find_Some_iff)
  with find_map_merge [OF assms] show ?thesis
    by (simp add: updateUser_def Let_def)
qed

lemma updateUser_not_found:
  assumes "find (\<lambda>y. id_user y = id_user p) (parse_users st) = None"
  shows "updateUser st p = (Inl (Error ''User not found.''), st)"
proof -
  from assms have "\<not> list_ex (\<lambda>y. id_user y = id_user p) (parse_users st)"
    by (simp add: list_ex_iff find_None_iff)
  then show ?thesis
    by (simp add: updateUser_def Let_def)
qed

lemma parse_users_users_update: "parse_users (st\<lparr>users_item := Some x\<rparr>) = x"
  by (simp add: parse_users_def)

text \<open>
  C4. Let the stored user at position \<open>i\<close> have the patch's id. After \<^verbatim>\<open>updateUser\<close> the
  stored user at \<open>i\<close> keeps its password when the patch's password is missing or empty,
  has the patch's password when that is non-empty, and has every other field from the
  patch. The users with another id are untouched.
\<close>

theorem updateUser_password_retention:
  assumes "i < length (parse_users st)"
    and "id_user (parse_users st ! i) = id_user patch"
  shows "length (parse_users (snd (updateUser st patch))) = length (parse_users st)
    \<and> (password patch = None \<or> password patch = Some [] \<longrightarrow>
         password (parse_users (snd (updateUser st patch)) ! i) = password (parse_users st ! i))
    \<and> (\<forall>Q. password patch = Some Q \<and> Q \<noteq> [] \<longrightarrow>
         password (parse_users (snd (updateUser st patch)) ! i) = Some Q)
    \<and> (parse_users (snd (updateUser st patch)) ! i)\<lparr>password := None\<rparr> = patch\<lparr>password := None\<rparr>
    \<and> (\<forall>j < length (parse_users st). id_user (parse_users st ! j) \<noteq> id_user patch \<longrightarrow>
         parse_users (snd (updateUser st patch)) ! j = parse_users st ! j)"
proof -
  from assms(1) have "parse_users st ! i \<in> set (parse_users st)"
    by simp
  with assms(2) have "\<exists>y \<in> set (parse_users st). id_user y = id_user patch"
    by blast
  then obtain x where "find (\<lambda>y. id_user y = id_user patch) (parse_users st) = Some x"
    by (cases "find (\<lambda>y. id_user y = id_user patch) (parse_users st)") (auto simp: find_None_iff)
  from updateUser_found [OF this]
  have new: "parse_users (snd (updateUser st patch)) =
      map (\<lambda>y. if id_user y = id_user patch then merge_user y patch else y) (parse_users st)"
    by (simp add: parse_users_users_update)
  show ?thesis
    using assms by (auto simp: new merge_user_def truthy_def)
qed

theorem updateUser_password_retention_witness:
  "Suc 0 < length (parse_users seeded)
   \<and> id_user (parse_users seeded ! Suc 0) = id_user (alice_sanitized\<lparr>name := ''Alice B''\<rparr>)
   \<and> password (parse_users seeded ! Suc 0) = Some ''alice123''
   \<and> password (alice_sanitized\<lparr>name := ''Alice B''\<rparr>) = None
   \<and> parse_users (snd (updateUser seeded (alice_sanitized\<lparr>name := ''Alice B''\<rparr>))) ! Suc 0
       = alice_sanitized\<lparr>name := ''Alice B'', password := Some ''alice123''\<rparr>
   \<and> password (parse_users (snd (updateUser seeded (alice_sanitized\<lparr>password := Some []\<rparr>)))
        ! Suc 0) = Some ''alice123''
   \<and> password (parse_users (snd (updateUser seeded (alice_sanitized\<lparr>password := Some ''s3cret''\<rparr>)))
        ! Suc 0) = Some ''s3cret''"
proof -
  let ?blank = "alice_sanitized\<lparr>name := ''Alice B''\<rparr>"
  let ?empty = "alice_sanitized\<lparr>password := Some []\<rparr>"
  let ?fresh = "alice_sanitized\<lparr>password := Some ''s3cret''\<rparr>"
  have len: "Suc 0 < length (parse_users seeded)"
    by (simp add: parse_seeded initialUsers_def)
  have stored: "parse_users seeded ! Suc 0 = alice_sanitized\<lparr>password := Some ''alice123''\<rparr>"
    by (simp add: parse_seeded initialUsers_def alice_sanitized_def)
  have ids: "id_user (parse_users seeded ! Suc 0) = id_user ?blank"
    "id_user (parse_users seeded ! Suc 0) = id_user ?empty"
    "id_user (parse_users seeded ! Suc 0) = id_user ?fresh"
    by (simp_all add: stored)
  let ?after = "parse_users (snd (updateUser seeded ?blank)) ! Suc 0"
  from updateUser_password_retention [OF len ids(1)]
  have "password ?after = Some ''alice123''" and "?after\<lparr>password := None\<rparr> = ?blank"
    by (simp_all add: stored alice_sanitized_def)
  then have blank: "?after = alice_sanitized\<lparr>name := ''Alice B'', password := Some ''alice123''\<rparr>"
    by (cases ?after) (simp add: alice_sanitized_def)
  from updateUser_password_retention [OF len ids(2)]
  have empty: "password (parse_users (snd (updateUser seeded ?empty)) ! Suc 0) = Some ''alice123''"
    by (simp add: stored)
  from updateUser_password_retention [OF len ids(3)]
  have fresh: "password (parse_users (snd (updateUser seeded ?fresh)) ! Suc 0) = Some ''s3cret''"
    by simp
  from len ids(1) stored blank empty fresh show ?thesis
    by (simp add: alice_sanitized_def)
qed

text \<open>
  C5. Every user that \<^verbatim>\<open>login\<close>, \<^verbatim>\<open>getUsers\<close>, \<^verbatim>\<open>addUser\<close> or \<^verbatim>\<open>updateUser\<close> returns, on any
  store and any arguments on which the call succeeds, has no password.
\<close>

theorem returned_users_sanitized:
  assumes "fst (run_call st c) = Inr vs" and "v \<in> set vs"
  shows "password v = None"
proof (cases c)
  case (Login uname pw)
  with assms show ?thesis
    by (auto simp: run_call_def login_def stripPassword_def Let_def
        split: option.splits if_splits)
next
  case GetUsers
  with assms show ?thesis
    by (auto simp: run_call_def getUsers_def stripPassword_def)
next
  case (AddUser u)
  with assms show ?thesis
    by (auto simp: run_call_def addUser_def stripPassword_def Let_def split: if_splits)
next
  case (UpdateUser u)
  show ?thesis
  proof (cases "find (\<lambda>y. id_user y = id_user u) (parse_users st)")
    case None
    from updateUser_not_found [OF None] assms UpdateUser show ?thesis
      by (simp add: run_call_def)
  next
    case (Some x)
    from updateUser_found [OF Some] assms UpdateUser show ?thesis
      by (auto simp: run_call_def stripPassword_def)
  qed
qed

theorem returned_users_sanitized_witness:
  "fst (run_call seeded (UpdateUser (alice_sanitized\<lparr>password := Some ''s3cret''\<rparr>)))
     = Inr [alice_sanitized]
   \<and> alice_sanitized \<in> set [alice_sanitized]
   \<and> password alice_sanitized = None
   \<and> map password (parse_users (snd (run_call seeded
         (UpdateUser (alice_sanitized\<lparr>password := Some ''s3cret''\<rparr>)))))
       = [Some ''admin'', Some ''s3cret'', Some ''bob123'', Some ''charlie123'']"
proof -
  let ?patch = "alice_sanitized\<lparr>password := Some ''s3cret''\<rparr>"
  have f: "find (\<lambda>y. id_user y = id_user ?patch) (parse_users seeded)
      = Some (alice_sanitized\<lparr>password := Some ''alice123''\<rparr>)"
    by (simp add: parse_seeded initialUsers_def alice_sanitized_def)
  have run: "run_call seeded (UpdateUser ?patch) =
      (Inr [stripPassword (merge_user (alice_sanitized\<lparr>password := Some ''alice123''\<rparr>) ?patch)],
       seeded\<lparr>users_item := Some (map (\<lambda>y. if id_user y = id_user ?patch
                                              then merge_user y ?patch else y)
                                    (parse_users seeded))\<rparr>)"
    by (simp add: run_call_def updateUser_found [OF f])
  let ?v = "stripPassword (merge_user (alice_sanitized\<lparr>password := Some ''alice123''\<rparr>) ?patch)"
  from run have r: "fst (run_call seeded (UpdateUser ?patch)) = Inr [?v]"
    by simp
  have "password ?v = None"
    by (rule returned_users_sanitized [OF r]) simp
  then have v: "?v = alice_sanitized"
    by (cases ?v) (simp add: stripPassword_def merge_user_def alice_sanitized_def)
  have stored: "map password (parse_users (snd (run_call seeded (UpdateUser ?patch))))
      = [Some ''admin'', Some ''s3cret'', Some ''bob123'', Some ''charlie123'']"
    unfolding run
    by (simp add: parse_users_users_update parse_seeded initialUsers_def merge_user_def
        truthy_def alice_sanitized_def)
  from r v stored show ?thesis
    by (simp add: alice_sanitized_def)
qed

subsection \<open>The audit log\<close>

text \<open>The decimal text determines the number: \<open>undecimal\<close> reads it back.\<close>

lemma undecimal_decimal: "undecimal (decimal n) = n"
proof (induction n rule: decimal.induct)
  case (1 n)
  show ?case
  proof (cases "n < 10")
    case True
    then show ?thesis
      by (subst decimal.simps) (simp add: undecimal_def)
  next
    case False
    have "n mod 10 < 10" by simp
    then have d: "(48 + n mod 10) mod 256 = 48 + n mod 10" by simp
    from False 1 have "undecimal (decimal (n div 10)) = n div 10" by simp
    with False d show ?thesis
      by (subst decimal.simps) (simp add: undecimal_def)
  qed
qed

lemma decimal_inj: "decimal m = decimal n \<Longrightarrow> m = n"
  by (metis undecimal_decimal)

lemma decimal_no_minus: "CHR ''-'' \<notin> set (decimal n)"
proof (induction n rule: decimal.induct)
  case (1 n)
  have c: "char_of (48 + k) \<noteq> CHR ''-''" if "k < 10" for k :: nat
  proof
    assume "char_of (48 + k) = CHR ''-''"
    then have "of_char (char_of (48 + k)) = (of_char (CHR ''-'') :: nat)" by simp
    with that show False by simp
  qed
  show ?case
  proof (cases "n < 10")
    case True
    then show ?thesis using c [of n] by (subst decimal.simps) simp
  next
    case False
    with 1 have "CHR ''-'' \<notin> set (decimal (n div 10))" by simp
    moreover have "char_of (48 + n mod 10) \<noteq> CHR ''-''" by (rule c) simp
    ultimately show ?thesis using False by (subst decimal.simps) simp
  qed
qed

lemma number_text_inj:
  assumes eq: "number_text i = number_text j"
  shows "i = j"
proof -
  have minus: "CHR ''-'' \<in> set (number_text k) \<longleftrightarrow> k < 0" for k
    by (simp add: number_text_def decimal_no_minus)
  from eq minus [of i] minus [of j] have sign: "i < 0 \<longleftrightarrow> j < 0"
    by simp
  show ?thesis
  proof (cases "i < 0")
    case True
    with sign eq have "nat (- i) = nat (- j)"
      by (simp add: number_text_def decimal_inj)
    with True sign show ?thesis by simp
  next
    case False
    with sign eq have "nat i = nat j"
      by (simp add: number_text_def decimal_inj)
    with False sign show ?thesis by simp
  qed
qed

text \<open>What \<^verbatim>\<open>addLog\<close> returns and stores, and the log after a sequence of calls.\<close>

lemma addLog_eq:
  "addLog now st nl =
    (Inr (stored_entry (now, nl)),
     st\<lparr>logs_item := Some (stored_entry (now, nl) # parse_logs st)\<rparr>)"
  by (simp add: addLog_def stored_entry_def Let_def)

lemma parse_logs_logs_update: "parse_logs (st\<lparr>logs_item := Some x\<rparr>) = x"
  by (simp add: parse_logs_def)

lemma parse_logs_addLogs:
  "parse_logs (addLogs st calls) = rev (map stored_entry calls) @ parse_logs st"
  by (induction st calls rule: addLogs.induct)
    (simp_all add: addLog_eq parse_logs_logs_update)

lemma stored_entry_parts:
  "NewLog.truncate (stored_entry c) = snd c"
  "id_log (stored_entry c) = ''log-'' @ number_text (fst c)"
  by (simp_all add: stored_entry_def NewLog.defs LogEntry.defs)

lemma entry_from_parts:
  fixes e :: LogEntry
  assumes "NewLog.truncate e = nl" and "id_log e = i"
  shows "e = NewLog.extend nl (LogEntry.fields i)"
  using assms by (cases e) (auto simp: NewLog.defs LogEntry.defs)

lemma distinct_clock_distinct_ids:
  "distinct (map fst calls) \<Longrightarrow> distinct (map (\<lambda>c. ''log-'' @ number_text (fst c)) calls)"
  by (induction calls) (auto dest: number_text_inj)

text \<open>
  C2, as stated, fails: the identifier is \<^verbatim>\<open>log-\<close> followed by the reading of the clock,
  so two calls that read the same millisecond store two entries with one identifier. Two
  calls made without awaiting the first run their bodies one after the other when the two
  delays end, and can read the same millisecond.
\<close>

theorem addLog_same_clock_same_id:
  "\<not> distinct (map id_log (parse_logs
        (addLogs \<lparr>users_item = None, logs_item = Some []\<rparr> [(1500, log_a), (1500, log_b)])))"
  unfolding parse_logs_addLogs
  by (simp add: stored_entry_parts)

text \<open>
  C2, amended. After \<open>N\<close> calls of \<^verbatim>\<open>addLog\<close> on an empty log, \<^verbatim>\<open>getLogs\<close> returns \<open>N\<close>
  entries, the entry of the last call first: read from the front they are the calls'
  entries in reverse, each with the identifier \<^verbatim>\<open>log-\<close> followed by its call's reading of
  the clock. The identifiers are pairwise distinct when the readings are.
\<close>

theorem addLog_newest_first:
  assumes "parse_logs st = []"
  shows "\<exists>entries. fst (getLogs (addLogs st calls)) = Inr entries
    \<and> length entries = length calls
    \<and> map NewLog.truncate entries = rev (map snd calls)
    \<and> map id_log entries = rev (map (\<lambda>c. ''log-'' @ number_text (fst c)) calls)
    \<and> (distinct (map fst calls) \<longrightarrow> distinct (map id_log entries))"
proof -
  let ?entries = "rev (map stored_entry calls)"
  have got: "fst (getLogs (addLogs st calls)) = Inr ?entries"
    using assms by (simp add: getLogs_def parse_logs_addLogs)
  have ids: "map id_log ?entries = rev (map (\<lambda>c. ''log-'' @ number_text (fst c)) calls)"
    by (simp add: rev_map stored_entry_parts comp_def)
  have parts: "map NewLog.truncate ?entries = rev (map snd calls)"
    by (simp add: rev_map stored_entry_parts comp_def)
  have "distinct (map id_log ?entries)" if "distinct (map fst calls)"
    unfolding ids using distinct_clock_distinct_ids [OF that] by simp
  with got ids parts show ?thesis
    by (intro exI [of _ ?entries]) simp
qed

theorem addLog_newest_first_witness:
  "parse_logs seeded = []
   \<and> distinct (map fst [(1500 :: int, log_a), (2500, log_b)])
   \<and> fst (getLogs (addLogs seeded [(1500, log_a), (2500, log_b)]))
       = Inr [NewLog.extend log_b (LogEntry.fields ''log-2500''),
              NewLog.extend log_a (LogEntry.fields ''log-1500'')]"
proof -
  let ?calls = "[(1500 :: int, log_a), (2500, log_b)]"
  have e: "parse_logs seeded = []"
    by (simp add: parse_seeded)
  have d: "distinct (map fst ?calls)"
    by simp
  have t: "number_text 1500 = ''1500''" "number_text 2500 = ''2500''"
    by (simp_all add: number_text_def decimal.simps char_of_eq_iff take_bit_eq_mod)
  from addLog_newest_first [OF e, of ?calls] obtain entries where
    got: "fst (getLogs (addLogs seeded ?calls)) = Inr entries"
    and parts: "map NewLog.truncate entries = rev (map snd ?calls)"
    and ids: "map id_log entries = rev (map (\<lambda>c. ''log-'' @ number_text (fst c)) ?calls)"
    by blast
  from parts ids have "entries = [NewLog.extend log_b (LogEntry.fields ''log-2500''),
      NewLog.extend log_a (LogEntry.fields ''log-1500'')]"
    by (auto simp: t map_eq_Cons_conv intro: entry_from_parts)
  with e d got show ?thesis
    by simp
qed

subsection \<open>The attendance toggle\<close>

text \<open>
  A run of \<^verbatim>\<open>handleCheckIn\<close> that passes the guard appends the log entry and then calls
  \<^verbatim>\<open>updateUser\<close>: the two lemmas give the whole result when the store has a user with the
  session user's id, and when it has none.
\<close>

lemma parse_users_logs_update: "parse_users (st\<lparr>logs_item := x\<rparr>) = parse_users st"
  by (simp add: parse_users_def)

lemma parse_logs_users_update: "parse_logs (st\<lparr>users_item := x\<rparr>) = parse_logs st"
  by (simp add: parse_logs_def)

lemma id_updatedUser: "id_user (updatedUser_of env u) = id_user u"
  by (simp add: updatedUser_of_def)

lemma saved_fields:
  "id_user (stripPassword (merge_user x (updatedUser_of env u))) = id_user u"
  "status (stripPassword (merge_user x (updatedUser_of env u)))
     = (if status u = ''Checked In'' then ''Checked Out'' else ''Checked In'')"
  "lastCheckIn (stripPassword (merge_user x (updatedUser_of env u)))
     = (if status u = ''Checked In'' then lastCheckIn u else Some (now_checkIn env))"
  by (simp_all add: stripPassword_def merge_user_def updatedUser_of_def newStatus_of_def)

lemma handleCheckIn_found:
  assumes "loggedInUser (app w) = Some u" and "\<not> isProcessing (app w)"
    and "find (\<lambda>y. id_user y = id_user u) (parse_users (storage w)) = Some x"
  shows "handleCheckIn env w =
    (\<lparr>success = True,
      message = ''Successfully Checked '' @ logType_of (newStatus_of u) @ ''!''\<rparr>,
     w\<lparr>storage := (storage w)
          \<lparr>logs_item := Some (stored_entry (now_id env, newLog_of env u) # parse_logs (storage w)),
           users_item := Some (map (\<lambda>y. if id_user y = id_user u
                                           then merge_user y (updatedUser_of env u) else y)
                                 (parse_users (storage w)))\<rparr>,
       session := Some (stripPassword (merge_user x (updatedUser_of env u))),
       app := (app w)
         \<lparr>users := map (\<lambda>y. if id_user y = id_user u
                               then stripPassword (merge_user x (updatedUser_of env u)) else y)
                      (users (app w)),
          logs := stored_entry (now_id env, newLog_of env u) # logs (app w),
          loggedInUser := Some (stripPassword (merge_user x (updatedUser_of env u))),
          isProcessing := False\<rparr>\<rparr>)"
proof -
  let ?st1 = "(storage w)\<lparr>logs_item :=
      Some (stored_entry (now_id env, newLog_of env u) # parse_logs (storage w))\<rparr>"
  from assms(3)
  have "find (\<lambda>y. id_user y = id_user (updatedUser_of env u)) (parse_users ?st1) = Some x"
    by (simp add: id_updatedUser parse_users_logs_update)
  from updateUser_found [OF this]
  have "updateUser ?st1 (updatedUser_of env u) =
      (Inr (stripPassword (merge_user x (updatedUser_of env u))),
       ?st1\<lparr>users_item := Some (map (\<lambda>y. if id_user y = id_user u
                                            then merge_user y (updatedUser_of env u) else y)
                                  (parse_users (storage w)))\<rparr>)"
    by (simp add: id_updatedUser parse_users_logs_update)
  with assms(1,2) show ?thesis
    by (simp add: handleCheckIn_def addLog_eq saved_fields)
qed

lemma handleCheckIn_not_found:
  assumes "loggedInUser (app w) = Some u" and "\<not> isProcessing (app w)"
    and "find (\<lambda>y. id_user y = id_user u) (parse_users (storage w)) = None"
  shows "handleCheckIn env w =
    (\<lparr>success = False, message = ''Check-in process failed. Please try again.''\<rparr>,
     w\<lparr>storage := (storage w)
          \<lparr>logs_item := Some (stored_entry (now_id env, newLog_of env u) # parse_logs (storage w))\<rparr>,
       app := (app w)\<lparr>isProcessing := False\<rparr>\<rparr>)"
proof -
  let ?st1 = "(storage w)\<lparr>logs_item :=
      Some (stored_entry (now_id env, newLog_of env u) # parse_logs (storage w))\<rparr>"
  from assms(3)
  have "find (\<lambda>y. id_user y = id_user (updatedUser_of env u)) (parse_users ?st1) = None"
    by (simp add: id_updatedUser parse_users_logs_update)
  from updateUser_not_found [OF this] assms(1,2) show ?thesis
    by (simp add: handleCheckIn_def addLog_eq)
qed

text \<open>A run that reports success passed the guard and found the user in the store.\<close>

lemma handleCheckIn_success:
  assumes "handleCheckIn env w = (r, w')" and "success r"
  shows "\<exists>u x. loggedInUser (app w) = Some u \<and> \<not> isProcessing (app w)
    \<and> find (\<lambda>y. id_user y = id_user u) (parse_users (storage w)) = Some x
    \<and> loggedInUser (app w') = Some (stripPassword (merge_user x (updatedUser_of env u)))
    \<and> session w' = Some (stripPassword (merge_user x (updatedUser_of env u)))
    \<and> parse_users (storage w') =
         map (\<lambda>y. if id_user y = id_user u then merge_user y (updatedUser_of env u) else y)
           (parse_users (storage w))"
proof (cases "loggedInUser (app w)")
  case None
  with assms show ?thesis by (auto simp: handleCheckIn_def)
next
  case (Some u)
  note logged = Some
  show ?thesis
  proof (cases "isProcessing (app w)")
    case True
    with logged assms show ?thesis by (auto simp: handleCheckIn_def)
  next
    case False
    note idle = False
    show ?thesis
    proof (cases "find (\<lambda>y. id_user y = id_user u) (parse_users (storage w))")
      case None
      from handleCheckIn_not_found [OF logged idle None, of env] assms show ?thesis
        by auto
    next
      case (Some x)
      from handleCheckIn_found [OF logged idle Some, of env] assms(1)
      have "w' = snd (handleCheckIn env w)"
        by simp
      then show ?thesis
        unfolding handleCheckIn_found [OF logged idle Some]
        using logged idle Some by (simp add: parse_users_users_update)
    qed
  qed
qed

lemma handleCheckIn_logs:
  assumes "loggedInUser (app w) = Some u" and "\<not> isProcessing (app w)"
  shows "parse_logs (storage (snd (handleCheckIn env w)))
    = stored_entry (now_id env, newLog_of env u) # parse_logs (storage w)"
proof (cases "find (\<lambda>y. id_user y = id_user u) (parse_users (storage w))")
  case None
  show ?thesis
    unfolding handleCheckIn_not_found [OF assms None]
    by (simp add: parse_logs_logs_update)
next
  case (Some x)
  show ?thesis
    unfolding handleCheckIn_found [OF assms Some]
    by (simp add: parse_logs_logs_update parse_logs_users_update)
qed

lemma stored_newLog_fields:
  "userId (stored_entry (t, newLog_of env u)) = id_user u"
  "userName (stored_entry (t, newLog_of env u)) = name u"
  "timestamp (stored_entry (t, newLog_of env u)) = now_log env"
  "type_log (stored_entry (t, newLog_of env u)) = logType_of (newStatus_of u)"
  "ip (stored_entry (t, newLog_of env u)) = getIpAddress (ip_answer env)"
  by (simp_all add: stored_entry_def newLog_of_def NewLog.defs LogEntry.defs split: prod.splits)

lemma stored_newLog_location:
  "getGeolocation (geo env) = Inr g \<Longrightarrow>
     location (stored_entry (t, newLog_of env u)) = Some g
     \<and> locationError (stored_entry (t, newLog_of env u)) = None"
  "getGeolocation (geo env) = Inl (Error reason) \<Longrightarrow>
     location (stored_entry (t, newLog_of env u)) = None
     \<and> locationError (stored_entry (t, newLog_of env u)) = Some reason"
  by (simp_all add: stored_entry_def newLog_of_def NewLog.defs LogEntry.defs)

text \<open>The two concrete worlds pass the guard, and their users are in the store.\<close>

lemma alice_world_facts:
  "loggedInUser (app alice_world) = Some alice_sanitized"
  "\<not> isProcessing (app alice_world)"
  "find (\<lambda>y. id_user y = id_user alice_sanitized) (parse_users (storage alice_world))
     = Some (alice_sanitized\<lparr>password := Some ''alice123''\<rparr>)"
  by (simp_all add: alice_world_eq parse_seeded initialUsers_def alice_sanitized_def)

lemma break_world_facts:
  "loggedInUser (app break_world) = Some bob_on_break"
  "\<not> isProcessing (app break_world)"
  "find (\<lambda>y. id_user y = id_user bob_on_break) (parse_users (storage break_world))
     = Some (bob_on_break\<lparr>password := Some ''bob123'', status := ''Checked Out''\<rparr>)"
  by (simp_all add: break_world_def initialApp_def parse_seeded initialUsers_def bob_on_break_def)

lemma alice_checked_in_facts:
  "loggedInUser (app alice_checked_in)
     = Some (alice_sanitized\<lparr>status := ''Checked In'', lastCheckIn := Some 1501\<rparr>)"
  "\<not> isProcessing (app alice_checked_in)"
  unfolding alice_checked_in_def handleCheckIn_found [OF alice_world_facts]
  by (simp_all add: stripPassword_def merge_user_def updatedUser_of_def newStatus_of_def
      env_degraded_def alice_sanitized_def)

text \<open>
  C1. A successful toggle replaces the session user by the saved one, which is the first
  stored user with that id without its password. Its status is \<^verbatim>\<open>Checked Out\<close> when the
  status was \<^verbatim>\<open>Checked In\<close> and \<^verbatim>\<open>Checked In\<close> otherwise; its \<^verbatim>\<open>lastCheckIn\<close> is the clock
  read for it when the new status is \<^verbatim>\<open>Checked In\<close> and the old value otherwise. A second
  successful toggle does the same from there, so from either of the two named states the
  status is back where it started.
\<close>

theorem toggle_complement:
  assumes "handleCheckIn env1 w = (r1, w1)" and "success r1"
  shows "\<exists>u u1. loggedInUser (app w) = Some u \<and> loggedInUser (app w1) = Some u1
     \<and> session w1 = Some u1
     \<and> (\<exists>x. find (\<lambda>y. id_user y = id_user u) (parse_users (storage w1)) = Some x
            \<and> stripPassword x = u1)
     \<and> status u1 = (if status u = ''Checked In'' then ''Checked Out'' else ''Checked In'')
     \<and> lastCheckIn u1 = (if status u1 = ''Checked In'' then Some (now_checkIn env1)
                          else lastCheckIn u)
     \<and> (\<forall>env2 r2 w2. handleCheckIn env2 w1 = (r2, w2) \<and> success r2 \<longrightarrow>
           (\<exists>u2. loggedInUser (app w2) = Some u2
              \<and> status u2 = (if status u1 = ''Checked In'' then ''Checked Out'' else ''Checked In'')
              \<and> lastCheckIn u2 = (if status u2 = ''Checked In'' then Some (now_checkIn env2)
                                   else lastCheckIn u1)
              \<and> (status u = ''Checked In'' \<or> status u = ''Checked Out'' \<longrightarrow>
                    status u2 = status u)))"
proof -
  from handleCheckIn_success [OF assms] obtain u x where
    u: "loggedInUser (app w) = Some u"
    and x: "find (\<lambda>y. id_user y = id_user u) (parse_users (storage w)) = Some x"
    and u1: "loggedInUser (app w1) = Some (stripPassword (merge_user x (updatedUser_of env1 u)))"
    and s1: "session w1 = Some (stripPassword (merge_user x (updatedUser_of env1 u)))"
    and st1: "parse_users (storage w1) =
         map (\<lambda>y. if id_user y = id_user u then merge_user y (updatedUser_of env1 u) else y)
           (parse_users (storage w))"
    by blast
  let ?u1 = "stripPassword (merge_user x (updatedUser_of env1 u))"
  from x have "find (\<lambda>y. id_user y = id_user (updatedUser_of env1 u)) (parse_users (storage w))
      = Some x"
    by (simp add: id_updatedUser)
  from find_map_merge [OF this]
  have stored: "find (\<lambda>y. id_user y = id_user u) (parse_users (storage w1))
      = Some (merge_user x (updatedUser_of env1 u))"
    by (simp add: st1 id_updatedUser)
  have second: "\<exists>u2. loggedInUser (app w2) = Some u2
        \<and> status u2 = (if status ?u1 = ''Checked In'' then ''Checked Out'' else ''Checked In'')
        \<and> lastCheckIn u2 = (if status u2 = ''Checked In'' then Some (now_checkIn env2)
                             else lastCheckIn ?u1)
        \<and> (status u = ''Checked In'' \<or> status u = ''Checked Out'' \<longrightarrow> status u2 = status u)"
    if run: "handleCheckIn env2 w1 = (r2, w2)" and ok: "success r2" for env2 r2 w2
  proof -
    from handleCheckIn_success [OF run ok] u1 obtain x2 where
      "loggedInUser (app w2) = Some (stripPassword (merge_user x2 (updatedUser_of env2 ?u1)))"
      by auto
    then show ?thesis
      by (auto simp: saved_fields)
  qed
  show ?thesis
    using u u1 s1 stored second
    by (auto simp: saved_fields)
qed

theorem toggle_complement_witness:
  "success (fst (handleCheckIn env_degraded alice_world))
   \<and> map_option status (loggedInUser (app alice_world)) = Some ''Checked Out''
   \<and> map_option lastCheckIn (loggedInUser (app alice_world)) = Some None
   \<and> map_option status (loggedInUser (app alice_checked_in)) = Some ''Checked In''
   \<and> map_option lastCheckIn (loggedInUser (app alice_checked_in)) = Some (Some 1501)
   \<and> success (fst (handleCheckIn env_full alice_checked_in))
   \<and> map_option status (loggedInUser (app (snd (handleCheckIn env_full alice_checked_in))))
       = Some ''Checked Out''
   \<and> map_option lastCheckIn (loggedInUser (app (snd (handleCheckIn env_full alice_checked_in))))
       = Some (Some 1501)"
proof -
  let ?r1 = "fst (handleCheckIn env_degraded alice_world)"
  let ?r2 = "fst (handleCheckIn env_full alice_checked_in)"
  let ?w2 = "snd (handleCheckIn env_full alice_checked_in)"
  have run1: "handleCheckIn env_degraded alice_world = (?r1, alice_checked_in)"
    by (simp add: alice_checked_in_def)
  have ok1: "success ?r1"
    unfolding handleCheckIn_found [OF alice_world_facts] by simp
  have start: "map_option status (loggedInUser (app alice_world)) = Some ''Checked Out''"
    "map_option lastCheckIn (loggedInUser (app alice_world)) = Some None"
    by (simp_all add: alice_world_facts alice_sanitized_def)
  have run2: "handleCheckIn env_full alice_checked_in = (?r2, ?w2)"
    by simp
  from toggle_complement [OF run1 ok1] obtain u u1 where
    u: "loggedInUser (app alice_world) = Some u"
    and u1: "loggedInUser (app alice_checked_in) = Some u1"
    and stored: "\<exists>x. find (\<lambda>y. id_user y = id_user u) (parse_users (storage alice_checked_in))
        = Some x \<and> stripPassword x = u1"
    and s1: "status u1 = (if status u = ''Checked In'' then ''Checked Out'' else ''Checked In'')"
    and l1: "lastCheckIn u1 = (if status u1 = ''Checked In'' then Some (now_checkIn env_degraded)
        else lastCheckIn u)"
    and second: "\<And>env2 r2 w2. handleCheckIn env2 alice_checked_in = (r2, w2) \<and> success r2 \<Longrightarrow>
        \<exists>u2. loggedInUser (app w2) = Some u2
          \<and> status u2 = (if status u1 = ''Checked In'' then ''Checked Out'' else ''Checked In'')
          \<and> lastCheckIn u2 = (if status u2 = ''Checked In'' then Some (now_checkIn env2)
                               else lastCheckIn u1)
          \<and> (status u = ''Checked In'' \<or> status u = ''Checked Out'' \<longrightarrow> status u2 = status u)"
    by blast
  from u have "u = alice_sanitized"
    by (simp add: alice_world_facts)
  with s1 l1 have after1: "status u1 = ''Checked In''" "lastCheckIn u1 = Some 1501"
    by (simp_all add: alice_sanitized_def env_degraded_def)
  from stored \<open>u = alice_sanitized\<close> obtain x where
    x: "find (\<lambda>y. id_user y = id_user alice_sanitized) (parse_users (storage alice_checked_in))
        = Some x" and sx: "stripPassword x = u1"
    by blast
  from x have "id_user x = id_user alice_sanitized"
    by (auto simp: find_Some_iff)
  with sx have "id_user u1 = id_user alice_sanitized"
    by (auto simp: stripPassword_def)
  with x have x1: "find (\<lambda>y. id_user y = id_user u1) (parse_users (storage alice_checked_in))
      = Some x"
    by simp
  have ok2: "success ?r2"
    unfolding handleCheckIn_found [OF u1 alice_checked_in_facts(2) x1] by simp
  from second [of env_full ?r2 ?w2] run2 ok2 obtain u2 where
    "loggedInUser (app ?w2) = Some u2" "status u2 = ''Checked Out''"
    "lastCheckIn u2 = Some 1501"
    using after1 by auto
  with ok1 start u1 after1 ok2 show ?thesis
    by simp
qed

text \<open>
  C10. Let a run pass the guard. When the session user's status is any string other than
  \<^verbatim>\<open>Checked In\<close>, the entry it logs has the kind \<^verbatim>\<open>in\<close>, every stored user with that id
  gets the status \<^verbatim>\<open>Checked In\<close>, and on success so does the session user; only the
  status \<^verbatim>\<open>Checked In\<close> itself gives \<^verbatim>\<open>out\<close> and \<^verbatim>\<open>Checked Out\<close>.
\<close>

theorem toggle_status_not_checked_in:
  assumes "loggedInUser (app w) = Some u" and "\<not> isProcessing (app w)"
  shows "(status u \<noteq> ''Checked In'' \<longrightarrow>
            type_log (hd (parse_logs (storage (snd (handleCheckIn env w))))) = ''in''
          \<and> (\<forall>x \<in> set (parse_users (storage (snd (handleCheckIn env w)))).
                 id_user x = id_user u \<longrightarrow> status x = ''Checked In'')
          \<and> (success (fst (handleCheckIn env w)) \<longrightarrow>
                map_option status (loggedInUser (app (snd (handleCheckIn env w))))
                  = Some ''Checked In''
              \<and> message (fst (handleCheckIn env w)) = ''Successfully Checked in!''))
     \<and> (status u = ''Checked In'' \<longrightarrow>
            type_log (hd (parse_logs (storage (snd (handleCheckIn env w))))) = ''out''
          \<and> (\<forall>x \<in> set (parse_users (storage (snd (handleCheckIn env w)))).
                 id_user x = id_user u \<longrightarrow> status x = ''Checked Out'')
          \<and> (success (fst (handleCheckIn env w)) \<longrightarrow>
                map_option status (loggedInUser (app (snd (handleCheckIn env w))))
                  = Some ''Checked Out''
              \<and> message (fst (handleCheckIn env w)) = ''Successfully Checked out!''))"
proof (cases "find (\<lambda>y. id_user y = id_user u) (parse_users (storage w))")
  case None
  then have none: "\<forall>x \<in> set (parse_users (storage w)). id_user x \<noteq> id_user u"
    by (simp add: find_None_iff)
  show ?thesis
    unfolding handleCheckIn_not_found [OF assms None]
    using none
    by (simp add: stored_newLog_fields logType_of_def newStatus_of_def
        parse_logs_logs_update parse_users_logs_update)
next
  case (Some x)
  have st: "status (merge_user y (updatedUser_of env u))
      = (if status u = ''Checked In'' then ''Checked Out'' else ''Checked In'')" for y
    by (simp add: merge_user_def updatedUser_of_def newStatus_of_def)
  show ?thesis
    unfolding handleCheckIn_found [OF assms Some]
    by (auto simp: stored_newLog_fields logType_of_def newStatus_of_def saved_fields st
        parse_logs_logs_update parse_logs_users_update parse_users_users_update)
qed

theorem toggle_status_not_checked_in_witness:
  "loggedInUser (app break_world) = Some bob_on_break
   \<and> \<not> isProcessing (app break_world)
   \<and> status bob_on_break = ''On Break''
   \<and> success (fst (handleCheckIn env_full break_world))
   \<and> type_log (hd (parse_logs (storage (snd (handleCheckIn env_full break_world))))) = ''in''
   \<and> map_option status (loggedInUser (app (snd (handleCheckIn env_full break_world))))
       = Some ''Checked In''
   \<and> message (fst (handleCheckIn env_full break_world)) = ''Successfully Checked in!''
   \<and> map_option status (loggedInUser (app alice_checked_in)) = Some ''Checked In''
   \<and> \<not> isProcessing (app alice_checked_in)
   \<and> type_log (hd (parse_logs (storage (snd (handleCheckIn env_full alice_checked_in))))) = ''out''"
proof -
  have odd: "status bob_on_break = ''On Break''" "status bob_on_break \<noteq> ''Checked In''"
    by (simp_all add: bob_on_break_def)
  have ok: "success (fst (handleCheckIn env_full break_world))"
    unfolding handleCheckIn_found [OF break_world_facts] by simp
  from toggle_status_not_checked_in [OF break_world_facts(1,2), of env_full] odd(2) ok
  have b: "type_log (hd (parse_logs (storage (snd (handleCheckIn env_full break_world))))) = ''in''"
    "map_option status (loggedInUser (app (snd (handleCheckIn env_full break_world))))
       = Some ''Checked In''"
    "message (fst (handleCheckIn env_full break_world)) = ''Successfully Checked in!''"
    by simp_all
  have inside: "status (alice_sanitized\<lparr>status := ''Checked In'', lastCheckIn := Some 1501\<rparr>)
      = ''Checked In''"
    by simp
  from toggle_status_not_checked_in [OF alice_checked_in_facts, of env_full] inside
  have a: "type_log (hd (parse_logs (storage (snd (handleCheckIn env_full alice_checked_in)))))
      = ''out''"
    by simp
  from break_world_facts(1,2) odd(1) ok b alice_checked_in_facts a show ?thesis
    by simp
qed

text \<open>
  C8. A run that passes the guard appends one entry to the stored log, whatever the
  collaborators answer and whether or not the user's update succeeds afterwards. When the
  IP lookup fails (the request is rejected, the response is not ok, or its body cannot be
  read) the entry's \<^verbatim>\<open>ip\<close> is \<^verbatim>\<open>Unavailable\<close>; when the geolocation fails the entry has no
  location and carries the failure's message as \<^verbatim>\<open>locationError\<close>; when it succeeds the
  entry has the position and no error.
\<close>

theorem toggle_collaborator_degradation:
  assumes "loggedInUser (app w) = Some u" and "\<not> isProcessing (app w)"
  shows "\<exists>entry. parse_logs (storage (snd (handleCheckIn env w))) = entry # parse_logs (storage w)
    \<and> userId entry = id_user u \<and> userName entry = name u \<and> timestamp entry = now_log env
    \<and> (ip_answer env = Fetch_rejected \<or> ip_answer env = Response_not_ok
          \<or> ip_answer env = Body_unreadable \<longrightarrow> ip entry = ''Unavailable'')
    \<and> (\<forall>addr. ip_answer env = Body_ip addr \<longrightarrow> ip entry = addr)
    \<and> (\<forall>reason. getGeolocation (geo env) = Inl (Error reason) \<longrightarrow>
          location entry = None \<and> locationError entry = Some reason)
    \<and> (\<forall>g. getGeolocation (geo env) = Inr g \<longrightarrow>
          location entry = Some g \<and> locationError entry = None)
    \<and> ((geo env = Geo_unsupported \<or> (\<exists>code. geo env = Geo_error code)) \<longleftrightarrow>
          (\<exists>reason. getGeolocation (geo env) = Inl (Error reason)))"
proof -
  have geo: "(geo env = Geo_unsupported \<or> (\<exists>code. geo env = Geo_error code)) =
      (\<exists>reason. getGeolocation (geo env) = Inl (Error reason))"
    by (cases "geo env") (simp_all add: getGeolocation_def)
  have ipf: "ip_answer env = Fetch_rejected \<or> ip_answer env = Response_not_ok
          \<or> ip_answer env = Body_unreadable \<Longrightarrow> getIpAddress (ip_answer env) = ''Unavailable''"
    by (auto simp: getIpAddress_def)
  have ipo: "ip_answer env = Body_ip addr \<Longrightarrow> getIpAddress (ip_answer env) = addr" for addr
    by (simp add: getIpAddress_def)
  show ?thesis
    unfolding handleCheckIn_logs [OF assms]
    using geo ipf ipo
    by (intro exI [of _ "stored_entry (now_id env, newLog_of env u)"])
       (simp add: stored_newLog_fields stored_newLog_location)
qed

theorem toggle_collaborator_degradation_witness:
  "loggedInUser (app alice_world) = Some alice_sanitized
   \<and> \<not> isProcessing (app alice_world)
   \<and> ip_answer env_degraded = Fetch_rejected
   \<and> getGeolocation (geo env_degraded) = Inl (Error ''User denied the request for Geolocation.'')
   \<and> (\<exists>entry. parse_logs (storage (snd (handleCheckIn env_degraded alice_world))) = [entry]
         \<and> ip entry = ''Unavailable'' \<and> location entry = None
         \<and> locationError entry = Some ''User denied the request for Geolocation.'')
   \<and> ip_answer env_full = Body_ip ''203.0.113.7''
   \<and> getGeolocation (geo env_full) = Inr \<lparr>latitude = 48, longitude = 11\<rparr>
   \<and> (\<exists>entry. parse_logs (storage (snd (handleCheckIn env_full alice_world))) = [entry]
         \<and> ip entry = ''203.0.113.7''
         \<and> location entry = Some \<lparr>latitude = 48, longitude = 11\<rparr>
         \<and> locationError entry = None)"
proof -
  have empty: "parse_logs (storage alice_world) = []"
    by (simp add: alice_world_eq parse_seeded)
  have d: "ip_answer env_degraded = Fetch_rejected"
    "getGeolocation (geo env_degraded) = Inl (Error ''User denied the request for Geolocation.'')"
    by (simp_all add: env_degraded_def getGeolocation_def)
  have f: "ip_answer env_full = Body_ip ''203.0.113.7''"
    "getGeolocation (geo env_full) = Inr \<lparr>latitude = 48, longitude = 11\<rparr>"
    by (simp_all add: env_full_def getGeolocation_def)
  from toggle_collaborator_degradation [OF alice_world_facts(1,2), of env_degraded] d empty
  have degraded: "\<exists>entry. parse_logs (storage (snd (handleCheckIn env_degraded alice_world))) = [entry]
         \<and> ip entry = ''Unavailable'' \<and> location entry = None
         \<and> locationError entry = Some ''User denied the request for Geolocation.''"
    by auto
  from toggle_collaborator_degradation [OF alice_world_facts(1,2), of env_full] f empty
  have full: "\<exists>entry. parse_logs (storage (snd (handleCheckIn env_full alice_world))) = [entry]
         \<and> ip entry = ''203.0.113.7''
         \<and> location entry = Some \<lparr>latitude = 48, longitude = 11\<rparr>
         \<and> locationError entry = None"
    by auto
  from alice_world_facts(1,2) d f degraded full show ?thesis
    by blast
qed

subsection \<open>Session revalidation\<close>

text \<open>
  C7. The application starts with no active session. When the session storage holds an
  identity, \<^verbatim>\<open>loadData\<close> makes it the active session exactly when the loaded directory has a
  user with its id, and then keeps the stored item; when no user has the id it removes the
  stored item, leaves the active session empty and reports no error.
\<close>

theorem session_revalidation:
  assumes "loggedInUser (app w) = None" and "session w = Some p"
  shows "(loggedInUser (app (loadData w)) = Some p
            \<longleftrightarrow> (\<exists>u \<in> set (parse_users (storage w)). id_user u = id_user p))
    \<and> ((\<exists>u \<in> set (parse_users (storage w)). id_user u = id_user p) \<longrightarrow>
          session (loadData w) = Some p)
    \<and> (\<not> (\<exists>u \<in> set (parse_users (storage w)). id_user u = id_user p) \<longrightarrow>
          session (loadData w) = None \<and> loggedInUser (app (loadData w)) = None
          \<and> loginError (app (loadData w)) = loginError (app w))
    \<and> storage (loadData w) = storage w
    \<and> \<not> isLoading (app (loadData w))"
proof -
  have ids: "list_ex (\<lambda>u. id_user u = id_user p) (map stripPassword (parse_users (storage w)))
      = (\<exists>u \<in> set (parse_users (storage w)). id_user u = id_user p)"
    by (simp add: list_ex_iff stripPassword_def)
  show ?thesis
    using assms by (simp add: loadData_def getUsers_def getLogs_def Let_def ids)
qed

theorem session_revalidation_witness:
  "loggedInUser (app restart_world) = None
   \<and> session restart_world = Some alice_sanitized
   \<and> (\<exists>u \<in> set (parse_users (storage restart_world)). id_user u = id_user alice_sanitized)
   \<and> loggedInUser (app (loadData restart_world)) = Some alice_sanitized
   \<and> session (loadData restart_world) = Some alice_sanitized
   \<and> loggedInUser (app restart_deleted_world) = None
   \<and> session restart_deleted_world = Some alice_sanitized
   \<and> \<not> (\<exists>u \<in> set (parse_users (storage restart_deleted_world)).
           id_user u = id_user alice_sanitized)
   \<and> loggedInUser (app (loadData restart_deleted_world)) = None
   \<and> session (loadData restart_deleted_world) = None
   \<and> loginError (app (loadData restart_deleted_world)) = None"
proof -
  have r: "loggedInUser (app restart_world) = None"
    "session restart_world = Some alice_sanitized"
    by (simp_all add: restart_world_def initialApp_def)
  have present: "\<exists>u \<in> set (parse_users (storage restart_world)). id_user u = id_user alice_sanitized"
    by (simp add: restart_world_def parse_seeded initialUsers_def alice_sanitized_def)
  have d: "loggedInUser (app restart_deleted_world) = None"
    "session restart_deleted_world = Some alice_sanitized"
    "loginError (app restart_deleted_world) = None"
    by (simp_all add: restart_deleted_world_def initialApp_def)
  have absent: "\<not> (\<exists>u \<in> set (parse_users (storage restart_deleted_world)).
      id_user u = id_user alice_sanitized)"
    by (simp add: restart_deleted_world_def deleteUser_def Let_def parse_users_users_update
        parse_seeded initialUsers_def alice_sanitized_def)
  from session_revalidation [OF r] present
  have restored: "loggedInUser (app (loadData restart_world)) = Some alice_sanitized"
    "session (loadData restart_world) = Some alice_sanitized"
    by simp_all
  from session_revalidation [OF d(1,2)] absent d(3)
  have discarded: "loggedInUser (app (loadData restart_deleted_world)) = None"
    "session (loadData restart_deleted_world) = None"
    "loginError (app (loadData restart_deleted_world)) = None"
    by simp_all
  from r present restored d(1,2) absent discarded show ?thesis
    by simp
qed

end
